theory Spec2Isabelle
  imports Main "HOL-Library.AList"
begin

section \<open>Shared data: event types, options and events\<close>

text \<open>
  The enumeration \<^verbatim>\<open>ProtectionEventType\<close> of
  \<^verbatim>\<open>core/mediator/protection-event.ts\<close>, constructor for constructor.
\<close>

datatype ProtectionEventType =
    STRATEGY_APPLIED | STRATEGY_REMOVED | STRATEGY_UPDATED
  | CONTEXT_MENU_ATTEMPT | SELECTION_ATTEMPT | DRAG_ATTEMPT | KEYBOARD_SHORTCUT_BLOCKED
  | PRINT_ATTEMPT | SCREENSHOT_ATTEMPT | DEVTOOLS_STATE_CHANGE | EXTENSION_DETECTED
  | FRAME_EMBEDDING_DETECTED | FULLSCREEN_CHANGE | WATERMARK_TAMPERED
  | OVERLAY_SHOWN | OVERLAY_REMOVED | OVERLAY_RESTORED
  | CONTENT_HIDDEN | CONTENT_RESTORED | WATERMARK_CREATED | WATERMARK_REMOVED
  | MEDIATOR_INITIALIZED | MEDIATOR_DISPOSED
  | ERROR_OCCURRED | DEBUG_MESSAGE | CONFIG_UPDATED
  | KEYBOARD_SHORTCUTS_REQUESTED | KEYBOARD_SHORTCUTS_PROVIDED | KEYBOARD_SHORTCUTS_UPDATED

text \<open>
  JavaScript truthiness of the optional values the code tests with \<^verbatim>\<open>||\<close>,
  \<^verbatim>\<open>!\<close> and \<^verbatim>\<open>if\<close>: an absent value, the number 0, the empty
  string and \<^verbatim>\<open>false\<close> are falsy. An optional field is an \<open>option\<close>.
\<close>

definition num_or :: "int option \<Rightarrow> int \<Rightarrow> int" where
  "num_or v d = (case v of None \<Rightarrow> d | Some n \<Rightarrow> if n = 0 then d else n)"

definition str_or :: "string option \<Rightarrow> string \<Rightarrow> string" where
  "str_or v d = (case v of None \<Rightarrow> d | Some s \<Rightarrow> if s = [] then d else s)"

definition truthy_bool :: "bool option \<Rightarrow> bool" where
  "truthy_bool v = (v = Some True)"


definition truthy_num :: "int option \<Rightarrow> bool" where
  "truthy_num v = (case v of None \<Rightarrow> False | Some n \<Rightarrow> n \<noteq> 0)"

text \<open>Decimal rendering of a non-negative number inside a template literal.\<close>

definition digit_char :: "nat \<Rightarrow> char" where
  "digit_char d =
     (if d = 0 then CHR ''0'' else if d = 1 then CHR ''1'' else if d = 2 then CHR ''2''
      else if d = 3 then CHR ''3'' else if d = 4 then CHR ''4'' else if d = 5 then CHR ''5''
      else if d = 6 then CHR ''6'' else if d = 7 then CHR ''7'' else if d = 8 then CHR ''8''
      else CHR ''9'')"

fun string_of_nat :: "nat \<Rightarrow> string" where
  "string_of_nat n =
     (if n < 10 then [digit_char n]
      else string_of_nat (n div 10) @ [digit_char (n mod 10)])"

declare string_of_nat.simps [simp del]

text \<open>
  \<^verbatim>\<open>OverlayOptions\<close> (utils/securityOverlayManager) and
  \<^verbatim>\<open>PlaceholderOptions\<close> (utils/protectedContentManager). The callback
  \<^verbatim>\<open>onCloseButtonClick\<close> and the style dictionaries are DOM-side
  collaborators and are left out of the record.
\<close>

record OverlayOptions =
  title :: "string option"
  message :: "string option"
  secondaryMessage :: "string option"
  textColor :: "string option"
  backgroundColor :: "string option"
  showCloseButton :: "bool option"
  duration :: "int option"
  additionalContent :: "string option"
  blockEvents :: "bool option"
  autoRestore :: "bool option"

record PlaceholderOptions =
  ph_title :: "string option"
  ph_message :: "string option"
  ph_secondaryMessage :: "string option"
  ph_textColor :: "string option"
  ph_backgroundColor :: "string option"

definition no_overlay_options :: OverlayOptions where
  "no_overlay_options =
     \<lparr>title = None, message = None, secondaryMessage = None, textColor = None,
      backgroundColor = None, showCloseButton = None, duration = None,
      additionalContent = None, blockEvents = None, autoRestore = None\<rparr>"

record ExtensionConfig =
  ext_name :: string
  ext_risk :: string

text \<open>
  The payloads of \<^verbatim>\<open>EventDataMap\<close> (core/mediator/eventDataTypes.ts) that the
  modelled components read or write. An element reference is a node number;
  \<open>NoData\<close> is an event published without \<^verbatim>\<open>data\<close>.
\<close>

record DevToolsData =
  dt_isOpen :: bool
  dt_target :: "nat option"
  dt_showOverlay :: "bool option"
  dt_overlayOptions :: "OverlayOptions option"
  dt_hideContent :: "bool option"

record ExtensionData =
  ex_extension :: "ExtensionConfig option"
  ex_showOverlay :: "bool option"
  ex_overlayOptions :: "OverlayOptions option"
  ex_hideContent :: "bool option"
  ex_priority :: "int option"
  ex_reason :: string
  ex_target :: "nat option"

record ScreenshotData =
  sc_showOverlay :: "bool option"
  sc_hideContent :: "bool option"
  sc_overlayOptions :: "OverlayOptions option"
  sc_duration :: "int option"
  sc_priority :: "int option"
  sc_reason :: string
  sc_target :: "nat option"

record FrameData =
  fr_isEmbedded :: bool
  fr_isExternalFrame :: bool
  fr_parentDomain :: "string option"
  fr_targetElement :: "nat option"
  fr_showOverlay :: "bool option"
  fr_hideContent :: "bool option"
  fr_overlayOptions :: "OverlayOptions option"

record ContentHiddenData =
  ch_strategyName :: string
  ch_reason :: string
  ch_options :: "PlaceholderOptions option"
  ch_targetElement :: "nat option"
  ch_priority :: "int option"

record ContentRestoredData =
  cr_strategyName :: string
  cr_targetElement :: "nat option"

record OverlayShownData =
  os_strategyName :: string
  os_overlayType :: string
  os_options :: "OverlayOptions option"
  os_priority :: "int option"
  os_duration :: "int option"

record OverlayRemovedData =
  or_strategyName :: string
  or_overlayType :: string
  or_reason :: "string option"

datatype payload =
    DevTools DevToolsData
  | Extension ExtensionData
  | Screenshot ScreenshotData
  | Frame FrameData
  | ContentHidden ContentHiddenData
  | ContentRestored ContentRestoredData
  | OverlayShown OverlayShownData
  | OverlayRemoved OverlayRemovedData
  | OverlayRestored OverlayRemovedData
  | NoData

text \<open>
  \<^verbatim>\<open>ProtectionEvent\<close>. \<open>ev_type = None\<close> is an event object without a
  \<^verbatim>\<open>type\<close>, which \<^verbatim>\<open>publish\<close> rejects; an absent timestamp is
  \<open>None\<close>, and 0 is as falsy as an absent one.
\<close>

record ProtectionEvent =
  ev_type :: "ProtectionEventType option"
  ev_source :: string
  ev_timestamp :: "int option"
  ev_data :: payload

definition isEventType :: "ProtectionEvent \<Rightarrow> ProtectionEventType \<Rightarrow> bool" where
  "isEventType event eventType = (ev_type event = Some eventType)"

section \<open>The event bus: ContentProtectionMediator\<close>

text \<open>
  \<^verbatim>\<open>Array.prototype.sort\<close> with a comparator: the language requires a stable
  sort, so for a comparator that orders consistently the result is the one of
  insertion sort, which is what is written here. \<open>cmp a b \<le> 0\<close> keeps \<open>a\<close>
  in front of \<open>b\<close>.
\<close>

fun insert_by :: "('a \<Rightarrow> 'a \<Rightarrow> int) \<Rightarrow> 'a \<Rightarrow> 'a list \<Rightarrow> 'a list" where
  "insert_by cmp x [] = [x]"
| "insert_by cmp x (y # ys) =
     (if cmp x y \<le> 0 then x # y # ys else y # insert_by cmp x ys)"

definition array_sort :: "('a \<Rightarrow> 'a \<Rightarrow> int) \<Rightarrow> 'a list \<Rightarrow> 'a list" where
  "array_sort cmp xs = foldr (insert_by cmp) xs []"

text \<open>
  A subscriber's handler is foreign code. The model keeps what such code can do to the
  bus while it runs inside \<^verbatim>\<open>publish\<close>: call \<^verbatim>\<open>unsubscribe\<close>, call
  \<^verbatim>\<open>unsubscribeByContext\<close>, and throw. A handler is the list of these actions
  in the order it performs them; \<open>Throw\<close> abandons the rest. A filter answers
  \<open>Some b\<close>, or \<open>None\<close> when it throws.
\<close>

datatype handler_action = CallUnsubscribe string | CallUnsubscribeByContext string | Throw

type_synonym ProtectionEventHandler = "handler_action list"

record Subscription =
  sub_id :: string
  sub_eventType :: ProtectionEventType
  sub_handler :: ProtectionEventHandler
  sub_filter :: "(ProtectionEvent \<Rightarrow> bool option) option"
  sub_priority :: int
  sub_context :: "string option"

record SubscriptionOptions =
  opt_filter :: "(ProtectionEvent \<Rightarrow> bool option) option"
  opt_priority :: "int option"
  opt_context :: "string option"

text \<open>
  The \<^verbatim>\<open>Map\<close> from event type to subscription array is an association list in
  insertion order: \<open>AList.update\<close> overwrites a present key in place and appends an
  absent one, as \<^verbatim>\<open>Map.prototype.set\<close> does.
\<close>

record ContentProtectionMediator =
  subscriptions :: "(ProtectionEventType \<times> Subscription list) list"
  subscriptionCounter :: nat
  med_debugMode :: bool
  eventHistory :: "ProtectionEvent list"

definition MAX_HISTORY_SIZE :: nat where
  "MAX_HISTORY_SIZE = 100"

definition new_mediator :: "bool \<Rightarrow> ContentProtectionMediator" where
  "new_mediator dbg =
     \<lparr>subscriptions = [], subscriptionCounter = 0, med_debugMode = dbg, eventHistory = []\<rparr>"

text \<open>\<^verbatim>\<open>getSubscriptions\<close>: \<^verbatim>\<open>this.subscriptions.get(eventType) || []\<close>.\<close>

definition getSubscriptions ::
  "ProtectionEventType \<Rightarrow> ContentProtectionMediator \<Rightarrow> Subscription list" where
  "getSubscriptions eventType m =
     (case map_of (subscriptions m) eventType of None \<Rightarrow> [] | Some subs \<Rightarrow> subs)"

definition priority_cmp :: "Subscription \<Rightarrow> Subscription \<Rightarrow> int" where
  "priority_cmp a b = sub_priority b - sub_priority a"

definition make_subscription ::
  "string \<Rightarrow> ProtectionEventType \<Rightarrow> ProtectionEventHandler \<Rightarrow> SubscriptionOptions option
     \<Rightarrow> Subscription" where
  "make_subscription subscriptionId eventType handler options =
     \<lparr>sub_id = subscriptionId,
      sub_eventType = eventType,
      sub_handler = handler,
      sub_filter = (case options of None \<Rightarrow> None | Some opts \<Rightarrow> opt_filter opts),
      sub_priority = (case options of None \<Rightarrow> 0 | Some opts \<Rightarrow> num_or (opt_priority opts) 0),
      sub_context = (case options of None \<Rightarrow> None | Some opts \<Rightarrow> opt_context opts)\<rparr>"

text \<open>
  \<^verbatim>\<open>subscribe\<close>. A handler that is not a function is \<open>None\<close>: the call is
  rejected with the empty id. Otherwise the subscription is pushed onto the array of its
  event type and the array is sorted.
\<close>

definition subscribe ::
  "ProtectionEventType \<Rightarrow> ProtectionEventHandler option \<Rightarrow> SubscriptionOptions option
     \<Rightarrow> ContentProtectionMediator \<Rightarrow> string \<times> ContentProtectionMediator" where
  "subscribe eventType handler options m =
     (case handler of
        None \<Rightarrow> ([], m)
      | Some h \<Rightarrow>
          (let counter = Suc (subscriptionCounter m);
               subscriptionId = ''sub_'' @ string_of_nat counter;
               subscription = make_subscription subscriptionId eventType h options;
               subscriptionsForType = getSubscriptions eventType m @ [subscription]
           in (subscriptionId,
               m\<lparr>subscriptions :=
                    AList.update eventType (array_sort priority_cmp subscriptionsForType)
                      (subscriptions m),
                  subscriptionCounter := counter\<rparr>)))"

text \<open>
  \<^verbatim>\<open>unsubscribe\<close>: the entries are scanned in order; the first array that gets
  shorter when the id is filtered out is replaced by the filtered copy, and the scan stops.
\<close>

fun unsubscribe_scan ::
  "string \<Rightarrow> (ProtectionEventType \<times> Subscription list) list
     \<Rightarrow> (ProtectionEventType \<times> Subscription list) option" where
  "unsubscribe_scan subscriptionId [] = None"
| "unsubscribe_scan subscriptionId ((eventType, subs) # rest) =
     (let filteredSubscriptions = filter (\<lambda>sub. sub_id sub \<noteq> subscriptionId) subs
      in if length filteredSubscriptions < length subs
         then Some (eventType, filteredSubscriptions)
         else unsubscribe_scan subscriptionId rest)"

definition unsubscribe ::
  "string \<Rightarrow> ContentProtectionMediator \<Rightarrow> bool \<times> ContentProtectionMediator" where
  "unsubscribe subscriptionId m =
     (if subscriptionId = [] then (False, m)
      else case unsubscribe_scan subscriptionId (subscriptions m) of
             None \<Rightarrow> (False, m)
           | Some (eventType, filteredSubscriptions) \<Rightarrow>
               (True, m\<lparr>subscriptions :=
                          AList.update eventType filteredSubscriptions (subscriptions m)\<rparr>))"

definition unsubscribeByContext ::
  "string \<Rightarrow> ContentProtectionMediator \<Rightarrow> nat \<times> ContentProtectionMediator" where
  "unsubscribeByContext ctx m =
     (if ctx = [] then (0, m)
      else
        (let keep = (\<lambda>sub. sub_context sub \<noteq> Some ctx)
         in (sum_list (map (\<lambda>(eventType, subs). length subs - length (filter keep subs))
                         (subscriptions m)),
             m\<lparr>subscriptions :=
                  map (\<lambda>(eventType, subs). (eventType, filter keep subs)) (subscriptions m)\<rparr>)))"

definition clearAllSubscriptions ::
  "ContentProtectionMediator \<Rightarrow> nat \<times> ContentProtectionMediator" where
  "clearAllSubscriptions m =
     (sum_list (map (\<lambda>(eventType, subs). length subs) (subscriptions m)),
      m\<lparr>subscriptions := []\<rparr>)"

text \<open>\<^verbatim>\<open>addToEventHistory\<close>: newest first, the oldest dropped beyond the bound.\<close>

definition addToEventHistory ::
  "ProtectionEvent \<Rightarrow> ContentProtectionMediator \<Rightarrow> ContentProtectionMediator" where
  "addToEventHistory event m =
     (let h = event # eventHistory m
      in m\<lparr>eventHistory := (if length h > MAX_HISTORY_SIZE then butlast h else h)\<rparr>)"

text \<open>Running a handler body against the bus; the result says whether it threw.\<close>

datatype outcome = Returned | Threw

fun run_handler ::
  "ProtectionEventHandler \<Rightarrow> ContentProtectionMediator \<Rightarrow> outcome \<times> ContentProtectionMediator" where
  "run_handler [] m = (Returned, m)"
| "run_handler (Throw # rest) m = (Threw, m)"
| "run_handler (CallUnsubscribe i # rest) m = run_handler rest (snd (unsubscribe i m))"
| "run_handler (CallUnsubscribeByContext c # rest) m =
     run_handler rest (snd (unsubscribeByContext c m))"

text \<open>
  One turn of the dispatch loop, the body of the \<^verbatim>\<open>try\<close>: the filter, when
  present, decides; its exception and the handler's are caught here and only logged.
\<close>

datatype call_result = Skipped | FilterThrew | Invoked outcome

definition call_subscriber ::
  "Subscription \<Rightarrow> ProtectionEvent \<Rightarrow> ContentProtectionMediator
     \<Rightarrow> call_result \<times> ContentProtectionMediator" where
  "call_subscriber subscription event m =
     (case (case sub_filter subscription of None \<Rightarrow> Some True | Some f \<Rightarrow> f event) of
        None \<Rightarrow> (FilterThrew, m)
      | Some False \<Rightarrow> (Skipped, m)
      | Some True \<Rightarrow>
          (let (r, m') = run_handler (sub_handler subscription) m in (Invoked r, m')))"

text \<open>
  The loop \<^verbatim>\<open>for (const subscription of subscriptions)\<close> runs over the array
  object that was read from the map before the loop. \<^verbatim>\<open>unsubscribe\<close> and
  \<^verbatim>\<open>unsubscribeByContext\<close> store a filtered copy in the map and leave that
  array object as it is, so the loop is a recursion over the list read at the start,
  threading the bus. The result lists, per subscriber in loop order, what happened.
\<close>

fun dispatch ::
  "Subscription list \<Rightarrow> ProtectionEvent \<Rightarrow> ContentProtectionMediator
     \<Rightarrow> (string \<times> call_result) list \<times> ContentProtectionMediator" where
  "dispatch [] event m = ([], m)"
| "dispatch (subscription # rest) event m =
     (let (r, m1) = call_subscriber subscription event m;
          (rs, m2) = dispatch rest event m1
      in ((sub_id subscription, r) # rs, m2))"

definition stamp :: "nat \<Rightarrow> ProtectionEvent \<Rightarrow> ProtectionEvent" where
  "stamp now event =
     (if truthy_num (ev_timestamp event) then event
      else event\<lparr>ev_timestamp := Some (int now)\<rparr>)"

definition publish ::
  "nat \<Rightarrow> ProtectionEvent \<Rightarrow> ContentProtectionMediator
     \<Rightarrow> (string \<times> call_result) list \<times> ContentProtectionMediator" where
  "publish now event m =
     (case ev_type event of
        None \<Rightarrow> ([], m)
      | Some eventType \<Rightarrow>
          (let event' = stamp now event;
               m1 = addToEventHistory event' m;
               subs = getSubscriptions eventType m1
           in if length subs = 0 then ([], m1) else dispatch subs event' m1))"

text \<open>The ids whose handler was called, in call order.\<close>

definition was_invoked :: "call_result \<Rightarrow> bool" where
  "was_invoked r = (case r of Invoked _ \<Rightarrow> True | _ \<Rightarrow> False)"

definition invoked_ids :: "(string \<times> call_result) list \<Rightarrow> string list" where
  "invoked_ids trace = map fst (filter (\<lambda>(i, r). was_invoked r) trace)"

definition filter_accepts :: "Subscription \<Rightarrow> ProtectionEvent \<Rightarrow> bool" where
  "filter_accepts subscription event =
     (case sub_filter subscription of None \<Rightarrow> True | Some f \<Rightarrow> f event = Some True)"

text \<open>Sequences of calls on a bus.\<close>

datatype mediator_op =
    Subscribe ProtectionEventType "ProtectionEventHandler option" "SubscriptionOptions option"
  | Unsubscribe string
  | UnsubscribeByContext string
  | Publish nat ProtectionEvent
  | ClearAllSubscriptions

fun apply_mediator_op :: "mediator_op \<Rightarrow> ContentProtectionMediator \<Rightarrow> ContentProtectionMediator" where
  "apply_mediator_op (Subscribe t h opts) m = snd (subscribe t h opts m)"
| "apply_mediator_op (Unsubscribe i) m = snd (unsubscribe i m)"
| "apply_mediator_op (UnsubscribeByContext c) m = snd (unsubscribeByContext c m)"
| "apply_mediator_op (Publish now e) m = snd (publish now e m)"
| "apply_mediator_op ClearAllSubscriptions m = snd (clearAllSubscriptions m)"

definition run_mediator_ops ::
  "mediator_op list \<Rightarrow> ContentProtectionMediator \<Rightarrow> ContentProtectionMediator" where
  "run_mediator_ops ops m = foldl (\<lambda>m' op. apply_mediator_op op m') m ops"

section \<open>The overlay coordinator: SecurityOverlayManager\<close>

text \<open>
  The DOM is outside the model. Of the nodes an overlay owns, the model keeps which
  node was created: the overlay \<^verbatim>\<open>div\<close> with its \<^verbatim>\<open>data-owner\<close>, or
  the event blocker. A pending auto-removal timer is the delay it was armed with.
\<close>

datatype dom_node = OverlayElement string | EventBlocker

record StoredOverlay =
  so_id :: string
  overlayType :: string
  so_options :: OverlayOptions
  owner :: string
  priority :: int
  element :: "dom_node option"
  blocker :: "dom_node option"
  timeoutId :: "int option"
  isVisible :: bool
  createdAt :: nat

text \<open>
  The manager. \<open>isBrowser\<close> is the answer of \<^verbatim>\<open>isBrowser()\<close> in the
  environment the manager lives in; \<open>overlays\<close> is the \<^verbatim>\<open>Map\<close> in insertion
  order; \<open>domObserver\<close> names the overlay whose nodes the current observer watches.
\<close>

record SecurityOverlayManager =
  isBrowser :: bool
  overlays :: "(string \<times> StoredOverlay) list"
  activeOverlayId :: "string option"
  overlayQueue :: "string list"
  domObserver :: "string option"

definition new_manager :: "bool \<Rightarrow> SecurityOverlayManager" where
  "new_manager browser =
     \<lparr>isBrowser = browser, overlays = [], activeOverlayId = None, overlayQueue = [],
      domObserver = None\<rparr>"

definition getOverlay :: "string \<Rightarrow> SecurityOverlayManager \<Rightarrow> StoredOverlay option" where
  "getOverlay overlayId m = map_of (overlays m) overlayId"

text \<open>A write to a field of the stored object with the given id.\<close>

definition modifyOverlay ::
  "string \<Rightarrow> (StoredOverlay \<Rightarrow> StoredOverlay) \<Rightarrow> SecurityOverlayManager \<Rightarrow> SecurityOverlayManager" where
  "modifyOverlay overlayId f m = m\<lparr>overlays := AList.map_entry overlayId f (overlays m)\<rparr>"

text \<open>\<^verbatim>\<open>!this.activeOverlayId\<close>: no id, or the empty string.\<close>

definition noActiveOverlay :: "SecurityOverlayManager \<Rightarrow> bool" where
  "noActiveOverlay m = (case activeOverlayId m of None \<Rightarrow> True | Some i \<Rightarrow> i = [])"

definition hasOverlayByOwnerAndType :: "string \<Rightarrow> string \<Rightarrow> SecurityOverlayManager \<Rightarrow> bool" where
  "hasOverlayByOwnerAndType own otype m =
     list_ex (\<lambda>(k, overlay). owner overlay = own \<and> overlayType overlay = otype) (overlays m)"

text \<open>The comparator of the queue sort: 0 when either id has no stored overlay.\<close>

definition queue_cmp :: "SecurityOverlayManager \<Rightarrow> string \<Rightarrow> string \<Rightarrow> int" where
  "queue_cmp m a b =
     (case (getOverlay a m, getOverlay b m) of
        (Some overlayA, Some overlayB) \<Rightarrow> priority overlayB - priority overlayA
      | _ \<Rightarrow> 0)"

definition addToQueue :: "string \<Rightarrow> SecurityOverlayManager \<Rightarrow> SecurityOverlayManager" where
  "addToQueue overlayId m =
     (if overlayId \<in> set (overlayQueue m) then m
      else m\<lparr>overlayQueue := array_sort (queue_cmp m) (overlayQueue m @ [overlayId])\<rparr>)"

definition createOverlayElements ::
  "StoredOverlay \<Rightarrow> SecurityOverlayManager \<Rightarrow> dom_node option \<times> dom_node option" where
  "createOverlayElements overlay m =
     (if \<not> isBrowser m then (None, None)
      else (Some (OverlayElement (owner overlay)),
            if truthy_bool (blockEvents (so_options overlay)) then Some EventBlocker else None))"

definition showOverlayById ::
  "string \<Rightarrow> SecurityOverlayManager \<Rightarrow> bool \<times> SecurityOverlayManager" where
  "showOverlayById overlayId m =
     (case getOverlay overlayId m of
        None \<Rightarrow> (False, m)
      | Some overlay \<Rightarrow>
          (case createOverlayElements overlay m of
             (None, _) \<Rightarrow> (False, m)
           | (Some el, bl) \<Rightarrow>
               (let m1 = modifyOverlay overlayId
                           (\<lambda>ov. ov\<lparr>element := Some el, blocker := bl, isVisible := True\<rparr>) m;
                    m2 = m1\<lparr>activeOverlayId := Some overlayId,
                            overlayQueue := filter (\<lambda>i. i \<noteq> overlayId) (overlayQueue m1)\<rparr>;
                    m3 = (case duration (so_options overlay) of
                            None \<Rightarrow> m2
                          | Some d \<Rightarrow>
                              if 0 < d
                              then modifyOverlay overlayId (\<lambda>ov. ov\<lparr>timeoutId := Some d\<rparr>) m2
                              else m2);
                    m4 = (if autoRestore (so_options overlay) \<noteq> Some False
                          then m3\<lparr>domObserver := Some overlayId\<rparr> else m3)
                in (True, m4))))"

definition hideOverlayById ::
  "string \<Rightarrow> bool \<Rightarrow> SecurityOverlayManager \<Rightarrow> bool \<times> SecurityOverlayManager" where
  "hideOverlayById overlayId processQueue m =
     (case getOverlay overlayId m of
        None \<Rightarrow> (False, m)
      | Some overlay \<Rightarrow>
          if \<not> isVisible overlay then (False, m)
          else
            (let m1 = modifyOverlay overlayId
                        (\<lambda>ov. ov\<lparr>timeoutId := None, element := None, blocker := None,
                                 isVisible := False\<rparr>) m
             in if activeOverlayId m1 = Some overlayId
                then
                  (let m2 = m1\<lparr>activeOverlayId := None\<rparr>
                   in if processQueue \<and> overlayQueue m2 \<noteq> []
                      then
                        (let nextOverlayId = hd (overlayQueue m2);
                             m3 = m2\<lparr>overlayQueue := tl (overlayQueue m2)\<rparr>
                         in if nextOverlayId \<noteq> []
                            then (True, snd (showOverlayById nextOverlayId m3))
                            else (True, m3))
                      else (True, m2))
                else (True, m1)))"

definition removeOverlayById ::
  "string \<Rightarrow> SecurityOverlayManager \<Rightarrow> bool \<times> SecurityOverlayManager" where
  "removeOverlayById overlayId m =
     (case getOverlay overlayId m of
        None \<Rightarrow> (False, m)
      | Some overlay \<Rightarrow>
          (let m1 = m\<lparr>domObserver := None\<rparr>;
               m2 = snd (hideOverlayById overlayId True m1)
           in (True, m2\<lparr>overlays := AList.delete overlayId (overlays m2)\<rparr>)))"

text \<open>
  \<^verbatim>\<open>registerOverlay\<close>. \<open>now\<close> is what \<^verbatim>\<open>Date.now()\<close> returns during
  the call.
\<close>

definition make_overlay_id :: "string \<Rightarrow> string \<Rightarrow> nat \<Rightarrow> string" where
  "make_overlay_id own otype now =
     ''overlay-'' @ own @ ''-'' @ otype @ ''-'' @ string_of_nat now"

definition registerOverlay ::
  "nat \<Rightarrow> string \<Rightarrow> string \<Rightarrow> OverlayOptions \<Rightarrow> int \<Rightarrow> SecurityOverlayManager
     \<Rightarrow> string \<times> SecurityOverlayManager" where
  "registerOverlay now own otype options prio m =
     (if \<not> isBrowser m then ([], m)
      else
        (let overlayId = make_overlay_id own otype now;
             storedOverlay =
               \<lparr>so_id = overlayId, overlayType = otype, so_options = options, owner = own,
                priority = prio, element = None, blocker = None, timeoutId = None,
                isVisible = False, createdAt = now\<rparr>;
             m1 = m\<lparr>overlays := AList.update overlayId storedOverlay (overlays m)\<rparr>
         in if noActiveOverlay m1 then (overlayId, snd (showOverlayById overlayId m1))
            else
              (let m2 = addToQueue overlayId m1
               in case activeOverlayId m2 of
                    None \<Rightarrow> (overlayId, m2)
                  | Some activeId \<Rightarrow>
                      (case (getOverlay activeId m2, getOverlay overlayId m2) of
                         (Some activeOverlay, Some newOverlay) \<Rightarrow>
                           if priority activeOverlay < priority newOverlay
                           then (overlayId,
                                 snd (showOverlayById overlayId
                                        (snd (hideOverlayById activeId False m2))))
                           else (overlayId, m2)
                       | _ \<Rightarrow> (overlayId, m2)))))"

fun removeOverlays ::
  "string list \<Rightarrow> SecurityOverlayManager \<Rightarrow> nat \<times> SecurityOverlayManager" where
  "removeOverlays [] m = (0, m)"
| "removeOverlays (overlayId # rest) m =
     (let (removed, m1) = removeOverlayById overlayId m;
          (removedCount, m2) = removeOverlays rest m1
      in ((if removed then Suc removedCount else removedCount), m2))"

definition removeOverlaysByOwner ::
  "string \<Rightarrow> SecurityOverlayManager \<Rightarrow> nat \<times> SecurityOverlayManager" where
  "removeOverlaysByOwner own m =
     (if \<not> isBrowser m then (0, m)
      else removeOverlays
             (map fst (filter (\<lambda>(k, overlay). owner overlay = own) (overlays m))) m)"

text \<open>
  \<^verbatim>\<open>checkAndRestoreOverlaysByOwner\<close> walks the entries of the map while the calls
  it makes write to the stored objects: each turn reads the object as it is then.
\<close>

fun restoreOverlays ::
  "string \<Rightarrow> string list \<Rightarrow> SecurityOverlayManager \<Rightarrow> nat \<times> SecurityOverlayManager" where
  "restoreOverlays own [] m = (0, m)"
| "restoreOverlays own (overlayId # rest) m =
     (case getOverlay overlayId m of
        None \<Rightarrow> restoreOverlays own rest m
      | Some overlay \<Rightarrow>
          if owner overlay = own \<and> autoRestore (so_options overlay) \<noteq> Some False
             \<and> \<not> isVisible overlay
          then
            (if \<not> noActiveOverlay m then restoreOverlays own rest (addToQueue overlayId m)
             else
               (let (shown, m1) = showOverlayById overlayId m;
                    (restoredCount, m2) = restoreOverlays own rest m1
                in ((if shown then Suc restoredCount else restoredCount), m2)))
          else restoreOverlays own rest m)"

definition checkAndRestoreOverlaysByOwner ::
  "string \<Rightarrow> SecurityOverlayManager \<Rightarrow> nat \<times> SecurityOverlayManager" where
  "checkAndRestoreOverlaysByOwner own m =
     (if \<not> isBrowser m then (0, m) else restoreOverlays own (map fst (overlays m)) m)"

definition clearAllOverlays :: "SecurityOverlayManager \<Rightarrow> nat \<times> SecurityOverlayManager" where
  "clearAllOverlays m =
     (if \<not> isBrowser m then (0, m)
      else
        (let (removedCount, m1) = removeOverlays (map fst (overlays m)) m
         in (removedCount, m1\<lparr>overlayQueue := [], activeOverlayId := None\<rparr>)))"

definition getActiveOverlays :: "SecurityOverlayManager \<Rightarrow> string list" where
  "getActiveOverlays m = map fst (filter (\<lambda>(k, overlay). isVisible overlay) (overlays m))"

text \<open>
  The handlers the manager subscribes on the bus. \<^verbatim>\<open>handleOverlayShown\<close>
  removes the first stored overlay of the same owner and type, then registers.
\<close>

definition handleOverlayShown ::
  "nat \<Rightarrow> ProtectionEvent \<Rightarrow> SecurityOverlayManager \<Rightarrow> SecurityOverlayManager" where
  "handleOverlayShown now event m =
     (if \<not> isEventType event OVERLAY_SHOWN then m
      else case ev_data event of
             OverlayShown d \<Rightarrow>
               (case os_options d of
                  None \<Rightarrow> m
                | Some options \<Rightarrow>
                    (let m1 =
                       (if hasOverlayByOwnerAndType (os_strategyName d) (os_overlayType d) m
                        then
                          (case find (\<lambda>(k, overlay). owner overlay = os_strategyName d
                                          \<and> overlayType overlay = os_overlayType d)
                                  (overlays m) of
                             None \<Rightarrow> m
                           | Some (overlayId, overlay) \<Rightarrow> snd (removeOverlayById overlayId m))
                        else m)
                     in snd (registerOverlay now (os_strategyName d) (os_overlayType d) options
                               (num_or (os_priority d) 0) m1)))
           | _ \<Rightarrow> m)"

definition handleOverlayRemoved ::
  "ProtectionEvent \<Rightarrow> SecurityOverlayManager \<Rightarrow> SecurityOverlayManager" where
  "handleOverlayRemoved event m =
     (if \<not> isEventType event OVERLAY_REMOVED then m
      else case ev_data event of
             OverlayRemoved d \<Rightarrow> snd (removeOverlaysByOwner (or_strategyName d) m)
           | _ \<Rightarrow> m)"

text \<open>\<^verbatim>\<open>handleOverlayRestored\<close> reads \<^verbatim>\<open>data.strategyName\<close> without a type guard.\<close>

definition payload_strategyName :: "payload \<Rightarrow> string option" where
  "payload_strategyName p =
     (case p of
        OverlayRestored d \<Rightarrow> Some (or_strategyName d)
      | OverlayRemoved d \<Rightarrow> Some (or_strategyName d)
      | OverlayShown d \<Rightarrow> Some (os_strategyName d)
      | ContentHidden d \<Rightarrow> Some (ch_strategyName d)
      | ContentRestored d \<Rightarrow> Some (cr_strategyName d)
      | _ \<Rightarrow> None)"

definition handleOverlayRestored ::
  "ProtectionEvent \<Rightarrow> SecurityOverlayManager \<Rightarrow> SecurityOverlayManager" where
  "handleOverlayRestored event m =
     (case payload_strategyName (ev_data event) of
        None \<Rightarrow> m
      | Some own \<Rightarrow> snd (checkAndRestoreOverlaysByOwner own m))"

text \<open>
  The callback of the DOM observer, for the overlay it watches: when the watched nodes
  leave the document the overlay is marked hidden and shown again or queued.
\<close>

definition handleElementsRemoved :: "SecurityOverlayManager \<Rightarrow> SecurityOverlayManager" where
  "handleElementsRemoved m =
     (case domObserver m of
        None \<Rightarrow> m
      | Some overlayId \<Rightarrow>
          (case getOverlay overlayId m of
             None \<Rightarrow> m
           | Some currentOverlay \<Rightarrow>
               if autoRestore (so_options currentOverlay) \<noteq> Some False
               then
                 (let m1 = modifyOverlay overlayId
                             (\<lambda>ov. ov\<lparr>isVisible := False, element := None, blocker := None\<rparr>) m
                  in if activeOverlayId m1 = Some overlayId
                     then snd (showOverlayById overlayId m1)
                     else addToQueue overlayId m1)
               else m))"

text \<open>Sequences of calls on a manager; a fired timer is a \<open>RemoveOverlayById\<close>.\<close>

datatype overlay_op =
    RegisterOverlay nat string string OverlayOptions int
  | HandleOverlayShown nat ProtectionEvent
  | HandleOverlayRemoved ProtectionEvent
  | HandleOverlayRestored ProtectionEvent
  | RemoveOverlayById string
  | RemoveOverlaysByOwner string
  | CheckAndRestoreOverlaysByOwner string
  | ClearAllOverlays
  | ElementsRemoved

fun apply_overlay_op :: "overlay_op \<Rightarrow> SecurityOverlayManager \<Rightarrow> SecurityOverlayManager" where
  "apply_overlay_op (RegisterOverlay now own otype options prio) m =
     snd (registerOverlay now own otype options prio m)"
| "apply_overlay_op (HandleOverlayShown now e) m = handleOverlayShown now e m"
| "apply_overlay_op (HandleOverlayRemoved e) m = handleOverlayRemoved e m"
| "apply_overlay_op (HandleOverlayRestored e) m = handleOverlayRestored e m"
| "apply_overlay_op (RemoveOverlayById i) m = snd (removeOverlayById i m)"
| "apply_overlay_op (RemoveOverlaysByOwner own) m = snd (removeOverlaysByOwner own m)"
| "apply_overlay_op (CheckAndRestoreOverlaysByOwner own) m =
     snd (checkAndRestoreOverlaysByOwner own m)"
| "apply_overlay_op ClearAllOverlays m = snd (clearAllOverlays m)"
| "apply_overlay_op ElementsRemoved m = handleElementsRemoved m"

definition run_overlay_ops ::
  "overlay_op list \<Rightarrow> SecurityOverlayManager \<Rightarrow> SecurityOverlayManager" where
  "run_overlay_ops ops m = foldl (\<lambda>m' op. apply_overlay_op op m') m ops"

section \<open>The content-state coordinator: ProtectedContentManager\<close>

text \<open>
  The part of the manager that \<^verbatim>\<open>hideContent\<close> and \<^verbatim>\<open>restoreContent\<close>
  read and write. The target element is its \<^verbatim>\<open>innerHTML\<close>, a string that reads
  back as it was assigned. A registered callback is foreign code that returns or throws;
  the calls made to it are logged in order.
\<close>

record HTMLElement =
  innerHTML :: string

datatype callback_call = ContentHiddenCall string | ContentRestoredCall

record ProtectedContentManager =
  targetElement :: "HTMLElement option"
  originalContent :: "string option"
  lastHideReason :: string
  onContentHiddenCallback :: "outcome option"
  onContentRestoredCallback :: "outcome option"
  callbackCalls :: "callback_call list"


definition nl :: string where
  "nl = [CHR 0x0A]"





definition isContentHidden :: "ProtectedContentManager \<Rightarrow> bool" where
  "isContentHidden m = (originalContent m \<noteq> None)"



section \<open>Strategy event handlers\<close>

text \<open>
  A handler turns a detection event into calls of \<^verbatim>\<open>mediator.publish\<close>. The
  model returns the published events in order; \<open>now\<close> is \<^verbatim>\<open>Date.now()\<close>.
\<close>

definition spread_overlay_options :: "OverlayOptions option \<Rightarrow> OverlayOptions" where
  "spread_overlay_options v = (case v of None \<Rightarrow> no_overlay_options | Some options \<Rightarrow> options)"

definition opt_field :: "('a \<Rightarrow> 'b option) \<Rightarrow> 'a option \<Rightarrow> 'b option" where
  "opt_field f v = (case v of None \<Rightarrow> None | Some x \<Rightarrow> f x)"

definition mk_event :: "ProtectionEventType \<Rightarrow> string \<Rightarrow> nat \<Rightarrow> payload \<Rightarrow> ProtectionEvent" where
  "mk_event t src now d =
     \<lparr>ev_type = Some t, ev_source = src, ev_timestamp = Some (int now), ev_data = d\<rparr>"

subsection \<open>DevToolsEventHandler\<close>

definition DEVTOOLS_HANDLER_NAME :: string where
  "DEVTOOLS_HANDLER_NAME = ''DevToolsEventHandler''"

definition handleDevToolsOpened :: "nat \<Rightarrow> DevToolsData \<Rightarrow> ProtectionEvent list" where
  "handleDevToolsOpened now d =
     (if dt_showOverlay d \<noteq> Some False
      then [mk_event OVERLAY_SHOWN DEVTOOLS_HANDLER_NAME now
              (OverlayShown
                 \<lparr>os_strategyName = DEVTOOLS_HANDLER_NAME, os_overlayType = ''devtools'',
                  os_options = Some ((spread_overlay_options (dt_overlayOptions d))
                                       \<lparr>blockEvents := Some True, autoRestore := Some True\<rparr>),
                  os_priority = Some 10, os_duration = None\<rparr>)]
      else [])
     @ (if dt_hideContent d = Some True
        then [mk_event CONTENT_HIDDEN DEVTOOLS_HANDLER_NAME now
                (ContentHidden
                   \<lparr>ch_strategyName = DEVTOOLS_HANDLER_NAME, ch_reason = ''devtools_opened'',
                    ch_options =
                      Some \<lparr>ph_title = opt_field title (dt_overlayOptions d),
                            ph_message = opt_field message (dt_overlayOptions d),
                            ph_secondaryMessage = opt_field secondaryMessage (dt_overlayOptions d),
                            ph_textColor = Some ''black'',
                            ph_backgroundColor = opt_field backgroundColor (dt_overlayOptions d)\<rparr>,
                    ch_targetElement = dt_target d, ch_priority = Some 10\<rparr>)]
        else [])"

definition handleDevToolsClosed :: "nat \<Rightarrow> DevToolsData \<Rightarrow> ProtectionEvent list" where
  "handleDevToolsClosed now d =
     (if dt_showOverlay d \<noteq> Some False
      then [mk_event OVERLAY_REMOVED DEVTOOLS_HANDLER_NAME now
              (OverlayRemoved
                 \<lparr>or_strategyName = DEVTOOLS_HANDLER_NAME, or_overlayType = ''devtools'',
                  or_reason = Some ''devtools_closed''\<rparr>)]
      else [])
     @ (if dt_hideContent d = Some True
        then [mk_event CONTENT_RESTORED DEVTOOLS_HANDLER_NAME now
                (ContentRestored
                   \<lparr>cr_strategyName = DEVTOOLS_HANDLER_NAME, cr_targetElement = dt_target d\<rparr>)]
        else [])"

definition devtools_handleDevToolsStateChange :: "nat \<Rightarrow> ProtectionEvent \<Rightarrow> ProtectionEvent list" where
  "devtools_handleDevToolsStateChange now event =
     (if \<not> isEventType event DEVTOOLS_STATE_CHANGE then []
      else case ev_data event of
             DevTools d \<Rightarrow> if dt_isOpen d then handleDevToolsOpened now d
                           else handleDevToolsClosed now d
           | _ \<Rightarrow> [])"

subsection \<open>BrowserExtensionEventHandler\<close>

definition EXTENSION_HANDLER_NAME :: string where
  "EXTENSION_HANDLER_NAME = ''BrowserExtensionEventHandler''"

definition toUpperCase :: "string \<Rightarrow> string" where
  "toUpperCase s =
     map (\<lambda>c. if (97::nat) \<le> of_char c \<and> of_char c \<le> (122::nat)
              then char_of (of_char c - (32::nat)) else c) s"

definition extension_additionalContent :: "ExtensionConfig \<Rightarrow> string" where
  \<open>extension_additionalContent extensionConfig =
     nl @ ''        <p style="font-size: 18px; margin-top: 20px;">Detected: ''
     @ ext_name extensionConfig @ ''</p>'' @ nl
     @ ''        <p style="font-size: 14px; margin-top: 10px;">Risk Level: ''
     @ toUpperCase (ext_risk extensionConfig) @ ''</p>'' @ nl
     @ ''        <button id="extension-protection-close" style="margin-top: 20px; padding: 10px 20px; background-color: white; color: black; border: none; border-radius: 4px; cursor: pointer; pointer-events: auto;">''
     @ nl
     @ ''          I'' @ [CHR 0x27] @ ''ve Disabled the Extension'' @ nl
     @ ''        </button>'' @ nl
     @ ''      ''\<close>

definition applyExtensionProtection :: "nat \<Rightarrow> ExtensionData \<Rightarrow> ExtensionConfig \<Rightarrow> ProtectionEvent list" where
  \<open>applyExtensionProtection now d extensionConfig =
     (if truthy_bool (ex_hideContent d)
      then [mk_event CONTENT_HIDDEN EXTENSION_HANDLER_NAME now
              (ContentHidden
                 \<lparr>ch_strategyName = EXTENSION_HANDLER_NAME, ch_reason = ''extension_detected'',
                  ch_options =
                    Some \<lparr>ph_title = opt_field title (ex_overlayOptions d),
                          ph_message = opt_field message (ex_overlayOptions d),
                          ph_secondaryMessage =
                            Some (''"'' @ ext_name extensionConfig @ ''" triggered this warning''),
                          ph_textColor = Some ''black'',
                          ph_backgroundColor = Some ''rgba(0, 0, 0, 0.05)''\<rparr>,
                  ch_targetElement = ex_target d, ch_priority = Some 8\<rparr>)]
      else [])
     @ (if truthy_bool (ex_showOverlay d)
        then [mk_event OVERLAY_SHOWN EXTENSION_HANDLER_NAME now
                (OverlayShown
                   \<lparr>os_strategyName = EXTENSION_HANDLER_NAME, os_overlayType = ''extension'',
                    os_options =
                      Some ((spread_overlay_options (ex_overlayOptions d))
                              \<lparr>blockEvents := Some True, autoRestore := Some True,
                               additionalContent :=
                                 Some (extension_additionalContent extensionConfig)\<rparr>),
                    os_priority = Some 8, os_duration = None\<rparr>)]
        else [])\<close>

definition removeExtensionProtection :: "nat \<Rightarrow> ExtensionData \<Rightarrow> ProtectionEvent list" where
  "removeExtensionProtection now d =
     (if truthy_bool (ex_hideContent d)
      then [mk_event CONTENT_RESTORED EXTENSION_HANDLER_NAME now
              (ContentRestored
                 \<lparr>cr_strategyName = EXTENSION_HANDLER_NAME, cr_targetElement = ex_target d\<rparr>)]
      else [])
     @ (if truthy_bool (ex_showOverlay d)
        then [mk_event OVERLAY_REMOVED EXTENSION_HANDLER_NAME now
                (OverlayRemoved
                   \<lparr>or_strategyName = EXTENSION_HANDLER_NAME, or_overlayType = ''extension'',
                    or_reason = Some ''extension_removed''\<rparr>)]
        else [])"

definition handleExtensionDetected :: "nat \<Rightarrow> ProtectionEvent \<Rightarrow> ProtectionEvent list" where
  "handleExtensionDetected now event =
     (if \<not> isEventType event EXTENSION_DETECTED then []
      else case ev_data event of
             Extension d \<Rightarrow>
               (case ex_extension d of
                  Some extensionConfig \<Rightarrow> applyExtensionProtection now d extensionConfig
                | None \<Rightarrow> removeExtensionProtection now d)
           | _ \<Rightarrow> [])"

subsection \<open>ScreenshotEventHandler\<close>

text \<open>
  The handler casts the event without a type guard and publishes under the event's own
  source. The timer that later restores the content is not part of the result.
\<close>

definition handleScreenshotAttempt :: "nat \<Rightarrow> ProtectionEvent \<Rightarrow> ProtectionEvent list" where
  "handleScreenshotAttempt now event =
     (case ev_data event of
        Screenshot d \<Rightarrow>
          (if truthy_bool (sc_showOverlay d)
           then [mk_event OVERLAY_SHOWN (ev_source event) now
                   (OverlayShown
                      \<lparr>os_strategyName = ev_source event, os_overlayType = ''screenshot'',
                       os_options =
                         Some ((spread_overlay_options (sc_overlayOptions d))
                                 \<lparr>blockEvents := Some False, autoRestore := Some True\<rparr>),
                       os_priority = Some (num_or (sc_priority d) 5),
                       os_duration =
                         Some (num_or (opt_field duration (sc_overlayOptions d)) 3000)\<rparr>)]
           else [])
          @ (if truthy_bool (sc_hideContent d)
             then [mk_event CONTENT_HIDDEN (ev_source event) now
                     (ContentHidden
                        \<lparr>ch_strategyName = ev_source event, ch_reason = ''screenshot_attempt'',
                         ch_options =
                           Some \<lparr>ph_title = opt_field title (sc_overlayOptions d),
                                 ph_message = opt_field message (sc_overlayOptions d),
                                 ph_secondaryMessage =
                                   opt_field secondaryMessage (sc_overlayOptions d),
                                 ph_textColor = Some ''black'',
                                 ph_backgroundColor =
                                   Some (str_or (opt_field backgroundColor (sc_overlayOptions d))
                                           ''rgba(0, 0, 0, 0.05)'')\<rparr>,
                         ch_targetElement = sc_target d,
                         ch_priority = Some (num_or (sc_priority d) 5)\<rparr>)]
             else [])
      | _ \<Rightarrow> [])"

subsection \<open>FrameEmbeddingEventHandler\<close>

definition FRAME_HANDLER_NAME :: string where
  "FRAME_HANDLER_NAME = ''FrameEmbeddingEventHandler''"

definition handleFrameEmbeddingDetected :: "nat \<Rightarrow> ProtectionEvent \<Rightarrow> ProtectionEvent list" where
  "handleFrameEmbeddingDetected now event =
     (case ev_data event of
        Frame d \<Rightarrow>
          if fr_isEmbedded d \<and> fr_isExternalFrame d
          then
            (if truthy_bool (fr_showOverlay d)
             then [mk_event OVERLAY_SHOWN FRAME_HANDLER_NAME now
                     (OverlayShown
                        \<lparr>os_strategyName = FRAME_HANDLER_NAME,
                         os_overlayType = ''frame_embedding'',
                         os_options =
                           Some ((spread_overlay_options (fr_overlayOptions d))
                                   \<lparr>blockEvents := Some True, autoRestore := Some True\<rparr>),
                         os_priority = Some 9, os_duration = None\<rparr>)]
             else [])
            @ (if truthy_bool (fr_hideContent d)
               then [mk_event CONTENT_HIDDEN FRAME_HANDLER_NAME now
                       (ContentHidden
                          \<lparr>ch_strategyName = FRAME_HANDLER_NAME, ch_reason = ''frame_embedding'',
                           ch_options =
                             Some \<lparr>ph_title = opt_field title (fr_overlayOptions d),
                                   ph_message = opt_field message (fr_overlayOptions d),
                                   ph_secondaryMessage =
                                     opt_field secondaryMessage (fr_overlayOptions d),
                                   ph_textColor = Some ''black'',
                                   ph_backgroundColor = Some ''rgba(0, 0, 0, 0.05)''\<rparr>,
                           ch_targetElement = fr_targetElement d, ch_priority = Some 9\<rparr>)]
               else [])
          else []
      | _ \<Rightarrow> [])"

text \<open>The priority an \<^verbatim>\<open>OVERLAY_SHOWN\<close> or \<^verbatim>\<open>CONTENT_HIDDEN\<close> event carries.\<close>

definition event_priority :: "ProtectionEvent \<Rightarrow> int option" where
  "event_priority event =
     (case ev_data event of
        OverlayShown d \<Rightarrow> os_priority d
      | ContentHidden d \<Rightarrow> ch_priority d
      | _ \<Rightarrow> None)"

definition is_protection_request :: "ProtectionEvent \<Rightarrow> bool" where
  "is_protection_request event =
     (ev_type event = Some OVERLAY_SHOWN \<or> ev_type event = Some CONTENT_HIDDEN)"

section \<open>Detection strategies\<close>


subsection \<open>DevToolsStrategy\<close>




subsection \<open>BrowserExtensionDetectionStrategy\<close>




subsection \<open>FrameEmbeddingProtectionStrategy\<close>








section \<open>Properties and sample inputs\<close>

subsection \<open>Event bus\<close>

definition sorted_desc :: "Subscription list \<Rightarrow> bool" where
  "sorted_desc subs = sorted_wrt (\<lambda>a b. sub_priority b \<le> sub_priority a) subs"

definition lists_sorted :: "ContentProtectionMediator \<Rightarrow> bool" where
  "lists_sorted m = (\<forall>(t, subs) \<in> set (subscriptions m). sorted_desc subs)"

definition prio_opts :: "int \<Rightarrow> SubscriptionOptions option" where
  "prio_opts p = Some \<lparr>opt_filter = None, opt_priority = Some p, opt_context = None\<rparr>"

definition demo_event :: ProtectionEvent where
  "demo_event =
     \<lparr>ev_type = Some OVERLAY_SHOWN, ev_source = ''demo'', ev_timestamp = Some 1,
      ev_data = NoData\<rparr>"



text \<open>A bus whose first subscriber unsubscribes the second one.\<close>

definition unsub_bus :: ContentProtectionMediator where
  "unsub_bus = run_mediator_ops
     [Subscribe OVERLAY_SHOWN (Some [CallUnsubscribe ''sub_2'']) (prio_opts 10),
      Subscribe OVERLAY_SHOWN (Some []) (prio_opts 5)] (new_mediator False)"

subsection \<open>Content manager\<close>



subsection \<open>Handlers and strategies\<close>

definition screenshot_event :: "int option \<Rightarrow> ProtectionEvent" where
  "screenshot_event p =
     mk_event SCREENSHOT_ATTEMPT ''ScreenshotStrategy'' 1
       (Screenshot \<lparr>sc_showOverlay = Some True, sc_hideContent = Some True,
                    sc_overlayOptions = None, sc_duration = None, sc_priority = p,
                    sc_reason = ''screenshot'', sc_target = None\<rparr>)"

definition devtools_open_event :: ProtectionEvent where
  "devtools_open_event =
     mk_event DEVTOOLS_STATE_CHANGE ''DevToolsStrategy'' 1
       (DevTools \<lparr>dt_isOpen = True, dt_target = None, dt_showOverlay = Some True,
                  dt_overlayOptions = None, dt_hideContent = Some True\<rparr>)"

definition extension_event :: ProtectionEvent where
  "extension_event =
     mk_event EXTENSION_DETECTED ''BrowserExtensionDetectionStrategy'' 1
       (Extension \<lparr>ex_extension = Some \<lparr>ext_name = ''Scraper'', ext_risk = ''high''\<rparr>,
                   ex_showOverlay = Some True, ex_overlayOptions = None,
                   ex_hideContent = Some True, ex_priority = Some 3,
                   ex_reason = ''extension_detected'', ex_target = None\<rparr>)"

definition frame_event :: ProtectionEvent where
  "frame_event =
     mk_event FRAME_EMBEDDING_DETECTED ''FrameEmbeddingProtectionStrategy'' 1
       (Frame \<lparr>fr_isEmbedded = True, fr_isExternalFrame = True, fr_parentDomain = None,
               fr_targetElement = None, fr_showOverlay = Some True, fr_hideContent = Some True,
               fr_overlayOptions = None\<rparr>)"

definition screenshot_priority :: "ProtectionEvent \<Rightarrow> int" where
  "screenshot_priority event =
     (case ev_data event of Screenshot d \<Rightarrow> num_or (sc_priority d) 5 | _ \<Rightarrow> 5)"










subsection \<open>Overlay manager\<close>

text \<open>The keys of the map are pairwise different and none is the empty string.\<close>

definition keys_ok :: "SecurityOverlayManager \<Rightarrow> bool" where
  "keys_ok m = (distinct (map fst (overlays m)) \<and> [] \<notin> set (map fst (overlays m)))"

definition visible_is_active :: "SecurityOverlayManager \<Rightarrow> bool" where
  "visible_is_active m =
     (\<forall>(k, overlay) \<in> set (overlays m). isVisible overlay \<longrightarrow> activeOverlayId m = Some k)"

definition visible_only :: "SecurityOverlayManager \<Rightarrow> string \<Rightarrow> bool" where
  "visible_only m i = (\<forall>(k, overlay) \<in> set (overlays m). isVisible overlay \<longrightarrow> k = i)"

definition none_visible :: "SecurityOverlayManager \<Rightarrow> bool" where
  "none_visible m = (\<forall>(k, overlay) \<in> set (overlays m). \<not> isVisible overlay)"

text \<open>At most one stored overlay is visible, and it is the active one.\<close>

definition single_active :: "SecurityOverlayManager \<Rightarrow> bool" where
  "single_active m =
     (length (getActiveOverlays m) \<le> 1 \<and>
      (\<forall>i \<in> set (getActiveOverlays m). activeOverlayId m = Some i))"

definition ovl_inv :: "SecurityOverlayManager \<Rightarrow> bool" where
  "ovl_inv m = (keys_ok m \<and> visible_is_active m)"



definition entry_tag :: "string \<times> StoredOverlay \<Rightarrow> string \<times> string \<times> string" where
  "entry_tag entry = (fst entry, owner (snd entry), overlayType (snd entry))"




text \<open>An active overlay and two waiting ones; the first waiting one is removed.\<close>

definition stale_ops :: "overlay_op list" where
  "stale_ops =
     [RegisterOverlay 1 ''d'' ''dev'' no_overlay_options 10,
      RegisterOverlay 2 ''s'' ''shot'' no_overlay_options 5,
      RegisterOverlay 3 ''f'' ''frame'' no_overlay_options 3,
      RemoveOverlayById ''overlay-s-shot-2'']"


text \<open>Three overlays, the last one of the highest priority.\<close>

definition three_ops :: "overlay_op list" where
  "three_ops =
     [RegisterOverlay 1 ''d'' ''dev'' no_overlay_options 10,
      RegisterOverlay 2 ''s'' ''shot'' no_overlay_options 5,
      RegisterOverlay 3 ''x'' ''ext'' no_overlay_options 20]"

section \<open>Proofs: event bus\<close>

lemma string_of_nat_digits:
  "string_of_nat (Suc 0) = ''1''"
  "string_of_nat (Suc (Suc 0)) = ''2''"
  "string_of_nat (Suc (Suc (Suc 0))) = ''3''"
  "string_of_nat (Suc (Suc (Suc (Suc 0)))) = ''4''"
  "string_of_nat 1 = ''1''" "string_of_nat 2 = ''2''" "string_of_nat 3 = ''3''"
  by (simp_all add: string_of_nat.simps digit_char_def)




lemma dispatch_invoked:
  "invoked_ids (fst (dispatch subs e m)) = map sub_id (filter (\<lambda>s. filter_accepts s e) subs)"
proof (induction subs arbitrary: m)
  case Nil
  show ?case by (simp add: invoked_ids_def)
next
  case (Cons s subs)
  obtain r m1 where c: "call_subscriber s e m = (r, m1)" by force
  obtain rs m2 where d: "dispatch subs e m1 = (rs, m2)" by force
  have acc: "was_invoked r = filter_accepts s e"
    using c by (auto simp: call_subscriber_def filter_accepts_def was_invoked_def
        split: option.splits bool.splits prod.splits)
  from Cons.IH[of m1] d have "invoked_ids rs = map sub_id (filter (\<lambda>s. filter_accepts s e) subs)"
    by simp
  with c d acc show ?case by (simp add: invoked_ids_def)
qed


lemma getSubscriptions_addToEventHistory [simp]:
  "getSubscriptions t (addToEventHistory e m) = getSubscriptions t m"
  by (simp add: getSubscriptions_def addToEventHistory_def Let_def)

lemma publish_invoked:
  assumes "ev_type e = Some t"
  shows "invoked_ids (fst (publish now e m)) =
     map sub_id (filter (\<lambda>s. filter_accepts s (stamp now e)) (getSubscriptions t m))"
proof (cases "getSubscriptions t m = []")
  case True
  with assms show ?thesis by (simp add: publish_def Let_def invoked_ids_def)
next
  case False
  with assms show ?thesis
    by (simp add: publish_def Let_def dispatch_invoked del: dispatch.simps)
qed






lemma in_set_updateD:
  "(k', v') \<in> set (AList.update k v al) \<Longrightarrow> (k', v') = (k, v) \<or> (k', v') \<in> set al"
  by (induction al) (auto split: if_splits)









lemma lists_sorted_addToEventHistory [simp]:
  "lists_sorted (addToEventHistory e m) = lists_sorted m"
  by (simp add: lists_sorted_def addToEventHistory_def Let_def)







lemma unsub_bus_subs:
  "subscriptions unsub_bus =
     [(OVERLAY_SHOWN,
       [make_subscription ''sub_1'' OVERLAY_SHOWN [CallUnsubscribe ''sub_2''] (prio_opts 10),
        make_subscription ''sub_2'' OVERLAY_SHOWN [] (prio_opts 5)])]"
  by (simp add: unsub_bus_def run_mediator_ops_def subscribe_def new_mediator_def Let_def
      getSubscriptions_def array_sort_def priority_cmp_def make_subscription_def prio_opts_def
      num_or_def string_of_nat_digits)






text \<open>
  C6, as stated, fails: the first handler unsubscribes the second subscription, which is
  called all the same in that \<^verbatim>\<open>publish\<close>, and is gone from the bus afterwards.
\<close>

theorem unsubscribe_mid_publish_counterexample:
  "map sub_id (getSubscriptions OVERLAY_SHOWN unsub_bus) = [''sub_1'', ''sub_2''] \<and>
   sub_handler (hd (getSubscriptions OVERLAY_SHOWN unsub_bus)) = [CallUnsubscribe ''sub_2''] \<and>
   invoked_ids (fst (publish 1 demo_event unsub_bus)) = [''sub_1'', ''sub_2''] \<and>
   map sub_id (getSubscriptions OVERLAY_SHOWN (snd (publish 1 demo_event unsub_bus))) = [''sub_1'']"
  by (simp add: publish_def Let_def getSubscriptions_def addToEventHistory_def unsub_bus_subs
      demo_event_def stamp_def truthy_num_def call_subscriber_def make_subscription_def
      prio_opts_def invoked_ids_def was_invoked_def unsubscribe_def MAX_HISTORY_SIZE_def)

text \<open>
  C6, amended. A subscription that is in the list of the event's type when
  \<^verbatim>\<open>publish\<close> starts, and whose filter accepts the event, has its handler called in
  that \<^verbatim>\<open>publish\<close>, also when a handler called earlier in it has unsubscribed it:
  the loop runs over the array read before the first handler is called, and
  \<^verbatim>\<open>unsubscribe\<close> stores a filtered copy in the map.
\<close>

theorem unsubscribe_mid_publish_still_invoked:
  assumes "ev_type e = Some t"
    and "s \<in> set (getSubscriptions t m)"
    and "filter_accepts s (stamp now e)"
  shows "sub_id s \<in> set (invoked_ids (fst (publish now e m)))"
  using assms by (auto simp: publish_invoked)

text \<open>The theorem at the unsubscribed second subscription of the example above.\<close>

theorem unsubscribe_mid_publish_still_invoked_witness:
  "ev_type demo_event = Some OVERLAY_SHOWN \<and>
   make_subscription ''sub_2'' OVERLAY_SHOWN [] (prio_opts 5)
     \<in> set (getSubscriptions OVERLAY_SHOWN unsub_bus) \<and>
   filter_accepts (make_subscription ''sub_2'' OVERLAY_SHOWN [] (prio_opts 5))
     (stamp 1 demo_event) \<and>
   ''sub_2'' \<in> set (invoked_ids (fst (publish 1 demo_event unsub_bus)))"
proof -
  let ?s = "make_subscription ''sub_2'' OVERLAY_SHOWN [] (prio_opts 5)"
  have t: "ev_type demo_event = Some OVERLAY_SHOWN" by (simp add: demo_event_def)
  have mem: "?s \<in> set (getSubscriptions OVERLAY_SHOWN unsub_bus)"
    by (simp add: getSubscriptions_def unsub_bus_subs)
  have acc: "filter_accepts ?s (stamp 1 demo_event)"
    by (simp add: filter_accepts_def make_subscription_def prio_opts_def)
  from unsubscribe_mid_publish_still_invoked[OF t mem acc]
  have "sub_id ?s \<in> set (invoked_ids (fst (publish 1 demo_event unsub_bus)))" .
  then have "''sub_2'' \<in> set (invoked_ids (fst (publish 1 demo_event unsub_bus)))"
    by (simp add: make_subscription_def)
  with t mem acc show ?thesis by simp
qed

section \<open>Proofs: content manager\<close>







section \<open>Proofs: handlers and strategies\<close>

lemma event_priority_mk_event [simp]:
  "event_priority (mk_event t src now (OverlayShown d)) = os_priority d"
  "event_priority (mk_event t src now (ContentHidden c)) = ch_priority c"
  by (simp_all add: event_priority_def mk_event_def)

lemma devtools_priority:
  "ev \<in> set (devtools_handleDevToolsStateChange now e) \<Longrightarrow> is_protection_request ev \<Longrightarrow>
     event_priority ev = Some 10"
  by (auto simp: devtools_handleDevToolsStateChange_def handleDevToolsOpened_def
      handleDevToolsClosed_def is_protection_request_def mk_event_def event_priority_def
      split: if_splits payload.splits)

lemma frame_priority:
  "ev \<in> set (handleFrameEmbeddingDetected now e) \<Longrightarrow> is_protection_request ev \<Longrightarrow>
     event_priority ev = Some 9"
  by (auto simp: handleFrameEmbeddingDetected_def is_protection_request_def
      split: if_splits payload.splits)

lemma extension_priority:
  "ev \<in> set (handleExtensionDetected now e) \<Longrightarrow> is_protection_request ev \<Longrightarrow>
     event_priority ev = Some 8"
  by (auto simp: handleExtensionDetected_def applyExtensionProtection_def
      removeExtensionProtection_def is_protection_request_def mk_event_def event_priority_def
      split: if_splits payload.splits option.splits)

lemma screenshot_priority_lemma:
  "ev \<in> set (handleScreenshotAttempt now e) \<Longrightarrow> is_protection_request ev \<Longrightarrow>
     event_priority ev = Some (screenshot_priority e)"
  by (auto simp: handleScreenshotAttempt_def screenshot_priority_def is_protection_request_def
      split: if_splits payload.splits)

text \<open>
  C9, as stated, fails for the screenshot handler: it publishes the priority that the
  triggering event carries, and 5 only when the event carries none.
\<close>

theorem screenshot_priority_counterexample:
  "map is_protection_request (handleScreenshotAttempt 2 (screenshot_event (Some 7))) = [True, True] \<and>
   map event_priority (handleScreenshotAttempt 2 (screenshot_event (Some 7))) = [Some 7, Some 7] \<and>
   map event_priority (handleScreenshotAttempt 2 (screenshot_event None)) = [Some 5, Some 5]"
  by (simp add: handleScreenshotAttempt_def screenshot_event_def mk_event_def truthy_bool_def
      num_or_def is_protection_request_def event_priority_def)

text \<open>
  C9, amended. Every \<^verbatim>\<open>OVERLAY_SHOWN\<close> or \<^verbatim>\<open>CONTENT_HIDDEN\<close> event published
  by the DevTools, frame-embedding and extension handlers carries the priority 10, 9 and 8,
  whatever the triggering event holds; the screenshot handler publishes the triggering
  event's \<^verbatim>\<open>data.priority\<close> when that is a number other than 0, and 5 otherwise.
\<close>

theorem handler_priorities:
  "(\<forall>ev \<in> set (devtools_handleDevToolsStateChange now e).
      is_protection_request ev \<longrightarrow> event_priority ev = Some 10) \<and>
   (\<forall>ev \<in> set (handleFrameEmbeddingDetected now e).
      is_protection_request ev \<longrightarrow> event_priority ev = Some 9) \<and>
   (\<forall>ev \<in> set (handleExtensionDetected now e).
      is_protection_request ev \<longrightarrow> event_priority ev = Some 8) \<and>
   (\<forall>ev \<in> set (handleScreenshotAttempt now e).
      is_protection_request ev \<longrightarrow> event_priority ev = Some (screenshot_priority e))"
  using devtools_priority frame_priority extension_priority screenshot_priority_lemma
  by blast

text \<open>The theorem at one detection event per handler.\<close>

theorem handler_priorities_witness:
  "is_protection_request (hd (devtools_handleDevToolsStateChange 2 devtools_open_event)) \<and>
   event_priority (hd (devtools_handleDevToolsStateChange 2 devtools_open_event)) = Some 10 \<and>
   is_protection_request (hd (handleFrameEmbeddingDetected 2 frame_event)) \<and>
   event_priority (hd (handleFrameEmbeddingDetected 2 frame_event)) = Some 9 \<and>
   is_protection_request (hd (handleExtensionDetected 2 extension_event)) \<and>
   event_priority (hd (handleExtensionDetected 2 extension_event)) = Some 8 \<and>
   is_protection_request (hd (handleScreenshotAttempt 2 (screenshot_event (Some 7)))) \<and>
   event_priority (hd (handleScreenshotAttempt 2 (screenshot_event (Some 7)))) = Some 7"
proof -
  have d: "hd (devtools_handleDevToolsStateChange 2 devtools_open_event)
             \<in> set (devtools_handleDevToolsStateChange 2 devtools_open_event)"
    and dp: "is_protection_request (hd (devtools_handleDevToolsStateChange 2 devtools_open_event))"
    by (simp_all add: devtools_handleDevToolsStateChange_def devtools_open_event_def
        handleDevToolsOpened_def mk_event_def isEventType_def is_protection_request_def)
  have f: "hd (handleFrameEmbeddingDetected 2 frame_event)
             \<in> set (handleFrameEmbeddingDetected 2 frame_event)"
    and fp: "is_protection_request (hd (handleFrameEmbeddingDetected 2 frame_event))"
    by (simp_all add: handleFrameEmbeddingDetected_def frame_event_def mk_event_def
        truthy_bool_def is_protection_request_def)
  have x: "hd (handleExtensionDetected 2 extension_event)
             \<in> set (handleExtensionDetected 2 extension_event)"
    and xp: "is_protection_request (hd (handleExtensionDetected 2 extension_event))"
    by (simp_all add: handleExtensionDetected_def extension_event_def mk_event_def
        applyExtensionProtection_def isEventType_def truthy_bool_def is_protection_request_def)
  have s: "hd (handleScreenshotAttempt 2 (screenshot_event (Some 7)))
             \<in> set (handleScreenshotAttempt 2 (screenshot_event (Some 7)))"
    and sp: "is_protection_request (hd (handleScreenshotAttempt 2 (screenshot_event (Some 7))))"
    and sv: "screenshot_priority (screenshot_event (Some 7)) = 7"
    by (simp_all add: handleScreenshotAttempt_def screenshot_event_def mk_event_def
        truthy_bool_def is_protection_request_def screenshot_priority_def num_or_def)
  from handler_priorities[of 2 devtools_open_event] d dp
  have d10: "event_priority (hd (devtools_handleDevToolsStateChange 2 devtools_open_event)) = Some 10"
    by blast
  from handler_priorities[of 2 frame_event] f fp
  have f9: "event_priority (hd (handleFrameEmbeddingDetected 2 frame_event)) = Some 9"
    by blast
  from handler_priorities[of 2 extension_event] x xp
  have x8: "event_priority (hd (handleExtensionDetected 2 extension_event)) = Some 8"
    by blast
  from handler_priorities[of 2 "screenshot_event (Some 7)"] s sp sv
  have s7: "event_priority (hd (handleScreenshotAttempt 2 (screenshot_event (Some 7)))) = Some 7"
    by simp
  from dp d10 fp f9 xp x8 sp s7 show ?thesis by simp
qed













section \<open>Proofs: overlay manager\<close>

lemma in_set_map_entryD:
  "(k', v') \<in> set (AList.map_entry k f al) \<Longrightarrow>
     (k', v') \<in> set al \<or> (k' = k \<and> (\<exists>v. (k, v) \<in> set al \<and> v' = f v))"
  by (induction al) (auto split: if_splits)

lemma keys_map_entry [simp]: "map fst (AList.map_entry k f al) = map fst al"
  by (induction al) auto

lemma in_set_map_entry_distinctD:
  "distinct (map fst al) \<Longrightarrow> (k, v') \<in> set (AList.map_entry k f al) \<Longrightarrow>
     \<exists>v. (k, v) \<in> set al \<and> v' = f v"
  by (induction al) (force split: if_splits)+

lemma in_set_deleteD: "(k, v) \<in> set (AList.delete i al) \<Longrightarrow> (k, v) \<in> set al \<and> k \<noteq> i"
  by (auto simp: AList.delete_eq)

lemma keys_modifyOverlay [simp]:
  "map fst (overlays (modifyOverlay i f m)) = map fst (overlays m)"
  by (simp add: modifyOverlay_def)

lemma modifyOverlay_fields [simp]:
  "activeOverlayId (modifyOverlay i f m) = activeOverlayId m"
  "overlayQueue (modifyOverlay i f m) = overlayQueue m"
  "isBrowser (modifyOverlay i f m) = isBrowser m"
  "domObserver (modifyOverlay i f m) = domObserver m"
  by (simp_all add: modifyOverlay_def)

lemma addToQueue_fields [simp]:
  "overlays (addToQueue i m) = overlays m"
  "activeOverlayId (addToQueue i m) = activeOverlayId m"
  "isBrowser (addToQueue i m) = isBrowser m"
  "domObserver (addToQueue i m) = domObserver m"
  by (simp_all add: addToQueue_def)

text \<open>What showOverlayById does to the map and the active id.\<close>

lemma show_cases:
  "snd (showOverlayById i m) = m \<or>
   (activeOverlayId (snd (showOverlayById i m)) = Some i \<and>
    (\<exists>f g. overlays (snd (showOverlayById i m)) =
             AList.map_entry i g (AList.map_entry i f (overlays m))))"
proof -
  have id: "\<And>al. AList.map_entry i (\<lambda>x. x) al = al"
    by (induct_tac al) auto
  show ?thesis
    unfolding showOverlayById_def Let_def
    apply (simp split: option.splits prod.splits add: modifyOverlay_def)
    apply (intro allI impI conjI)
    by (metis id)+
qed

lemma show_keys [simp]:
  "map fst (overlays (snd (showOverlayById i m))) = map fst (overlays m)"
  using show_cases[of i m] by auto

lemma show_isBrowser [simp]: "isBrowser (snd (showOverlayById i m)) = isBrowser m"
  by (simp add: showOverlayById_def Let_def modifyOverlay_def split: option.splits prod.splits)

lemma show_visible_is_active:
  assumes "visible_only m i" and "visible_is_active m"
  shows "visible_is_active (snd (showOverlayById i m))"
proof -
  from show_cases[of i m] show ?thesis
  proof
    assume "snd (showOverlayById i m) = m"
    with assms(2) show ?thesis by simp
  next
    assume a: "activeOverlayId (snd (showOverlayById i m)) = Some i \<and>
      (\<exists>f g. overlays (snd (showOverlayById i m)) =
             AList.map_entry i g (AList.map_entry i f (overlays m)))"
    then obtain f g where ov: "overlays (snd (showOverlayById i m)) =
             AList.map_entry i g (AList.map_entry i f (overlays m))" by blast
    have "\<And>k v. (k, v) \<in> set (overlays (snd (showOverlayById i m))) \<Longrightarrow> isVisible v \<Longrightarrow> k = i"
    proof -
      fix k v assume kv: "(k, v) \<in> set (overlays (snd (showOverlayById i m)))" and vis: "isVisible v"
      show "k = i"
      proof (rule ccontr)
        assume ne: "k \<noteq> i"
        from kv ov have "(k, v) \<in> set (AList.map_entry i f (overlays m))"
          using in_set_map_entryD ne by fastforce
        then have "(k, v) \<in> set (overlays m)" using in_set_map_entryD ne by fastforce
        with assms(1) vis ne show False by (auto simp: visible_only_def)
      qed
    qed
    with a show ?thesis by (auto simp: visible_is_active_def)
  qed
qed

lemma none_visible_imp:
  "none_visible m \<Longrightarrow> visible_only m i \<and> visible_is_active m"
  by (auto simp: none_visible_def visible_only_def visible_is_active_def)

lemma noActive_none_visible:
  assumes "keys_ok m" and "visible_is_active m" and "noActiveOverlay m"
  shows "none_visible m"
  unfolding none_visible_def
proof (clarify)
  fix k v assume kv: "(k, v) \<in> set (overlays m)" and vis: "isVisible v"
  with assms(2) have "activeOverlayId m = Some k" by (auto simp: visible_is_active_def)
  with assms(3) have "k = []" by (simp add: noActiveOverlay_def)
  with kv assms(1) show False by (force simp: keys_ok_def)
qed

text \<open>Marking the active overlay hidden leaves no visible overlay.\<close>

lemma mark_hidden_none_visible:
  assumes "keys_ok m" and "visible_is_active m" and "activeOverlayId m = Some i"
    and "\<And>ov. \<not> isVisible (f ov)"
  shows "none_visible (modifyOverlay i f m)"
  unfolding none_visible_def
proof (clarify)
  fix k v assume kv: "(k, v) \<in> set (overlays (modifyOverlay i f m))" and vis: "isVisible v"
  then have kv': "(k, v) \<in> set (AList.map_entry i f (overlays m))" by (simp add: modifyOverlay_def)
  from in_set_map_entryD[OF kv'] assms(4) vis have old: "(k, v) \<in> set (overlays m)" by auto
  with assms(2,3) vis have "k = i" by (auto simp: visible_is_active_def)
  with kv' assms(1) in_set_map_entry_distinctD[of "overlays m" i v f]
  obtain v0 where "v = f v0" by (auto simp: keys_ok_def)
  with assms(4) vis show False by simp
qed

lemma mark_hidden_visible_is_active:
  assumes "visible_is_active m" and "\<And>ov. \<not> isVisible (f ov)"
  shows "visible_is_active (modifyOverlay i f m)"
  unfolding visible_is_active_def
proof (clarify)
  fix k v assume kv: "(k, v) \<in> set (overlays (modifyOverlay i f m))" and vis: "isVisible v"
  then have kv': "(k, v) \<in> set (AList.map_entry i f (overlays m))" by (simp add: modifyOverlay_def)
  from in_set_map_entryD[OF kv'] assms(2) vis have old: "(k, v) \<in> set (overlays m)" by auto
  with assms(1) vis show "activeOverlayId (modifyOverlay i f m) = Some k"
    by (auto simp: visible_is_active_def)
qed

lemma hide_keys [simp]:
  "map fst (overlays (snd (hideOverlayById i pq m))) = map fst (overlays m)"
  by (simp add: hideOverlayById_def Let_def split: option.splits)

lemma hide_isBrowser [simp]: "isBrowser (snd (hideOverlayById i pq m)) = isBrowser m"
  by (simp add: hideOverlayById_def Let_def split: option.splits)

lemma hide_visible_is_active:
  assumes "keys_ok m" and "visible_is_active m"
  shows "visible_is_active (snd (hideOverlayById i pq m))"
proof (cases "getOverlay i m")
  case None
  with assms show ?thesis by (simp add: hideOverlayById_def)
next
  case (Some ov)
  let ?f = "\<lambda>ov. ov\<lparr>timeoutId := None, element := None, blocker := None, isVisible := False\<rparr>"
  let ?m1 = "modifyOverlay i ?f m"
  show ?thesis
  proof (cases "isVisible ov")
    case False
    with Some assms show ?thesis by (simp add: hideOverlayById_def)
  next
    case True
    show ?thesis
    proof (cases "activeOverlayId m = Some i")
      case False
      have "visible_is_active ?m1"
        by (rule mark_hidden_visible_is_active[OF assms(2)]) simp
      with Some True False show ?thesis by (simp add: hideOverlayById_def Let_def)
    next
      case act: True
      have nv: "none_visible ?m1"
        by (rule mark_hidden_none_visible[OF assms act]) simp
      let ?m2 = "?m1\<lparr>activeOverlayId := None\<rparr>"
      have nv2: "none_visible ?m2" using nv by (simp add: none_visible_def)
      let ?m3 = "?m2\<lparr>overlayQueue := tl (overlayQueue ?m2)\<rparr>"
      have nv3: "none_visible ?m3" using nv by (simp add: none_visible_def)
      have sh: "visible_is_active (snd (showOverlayById (hd (overlayQueue ?m2)) ?m3))"
        using none_visible_imp[OF nv3] show_visible_is_active by blast
      from Some True act nv2 nv3 sh none_visible_imp show ?thesis
        by (auto simp: hideOverlayById_def Let_def)
    qed
  qed
qed

lemma hide_active_none_visible:
  assumes "keys_ok m" and "visible_is_active m" and "activeOverlayId m = Some a"
  shows "none_visible (snd (hideOverlayById a False m))"
proof -
  have stale: "getOverlay a m = None \<or> (\<exists>ov. getOverlay a m = Some ov \<and> \<not> isVisible ov)
      \<Longrightarrow> none_visible m"
    unfolding none_visible_def
  proof (clarify)
    fix k v
    assume st: "getOverlay a m = None \<or> (\<exists>ov. getOverlay a m = Some ov \<and> \<not> isVisible ov)"
      and kv: "(k, v) \<in> set (overlays m)" and vis: "isVisible v"
    from kv vis assms(2,3) have "k = a" by (auto simp: visible_is_active_def)
    with kv assms(1) have "getOverlay a m = Some v"
      by (simp add: getOverlay_def keys_ok_def)
    with st vis show False by auto
  qed
  show ?thesis
  proof (cases "getOverlay a m")
    case None
    with stale show ?thesis by (simp add: hideOverlayById_def)
  next
    case (Some ov)
    show ?thesis
    proof (cases "isVisible ov")
      case False
      with Some stale show ?thesis by (simp add: hideOverlayById_def)
    next
      case True
      let ?f = "\<lambda>ov. ov\<lparr>timeoutId := None, element := None, blocker := None, isVisible := False\<rparr>"
      have nv: "none_visible (modifyOverlay a ?f m)"
        by (rule mark_hidden_none_visible[OF assms]) simp
      then have "none_visible ((modifyOverlay a ?f m)\<lparr>activeOverlayId := None\<rparr>)"
        by (simp add: none_visible_def)
      with Some True assms(3) show ?thesis by (simp add: hideOverlayById_def Let_def)
    qed
  qed
qed

lemma make_overlay_id_nonempty [simp]: "make_overlay_id own otype now \<noteq> []"
  by (simp add: make_overlay_id_def)

lemma show_inv:
  assumes "ovl_inv m" and "visible_only m i"
  shows "ovl_inv (snd (showOverlayById i m))"
  using assms show_visible_is_active[of m i]
  by (simp add: ovl_inv_def keys_ok_def)

lemma hide_inv: "ovl_inv m \<Longrightarrow> ovl_inv (snd (hideOverlayById i pq m))"
  using hide_visible_is_active[of m i pq] by (simp add: ovl_inv_def keys_ok_def)

lemma addToQueue_inv [simp]: "ovl_inv (addToQueue i m) = ovl_inv m"
  by (simp add: ovl_inv_def keys_ok_def visible_is_active_def)

lemma store_inv:
  assumes "ovl_inv m" and "\<not> isVisible ov" and "i \<noteq> []"
  shows "ovl_inv (m\<lparr>overlays := AList.update i ov (overlays m)\<rparr>)"
proof -
  have k: "keys_ok (m\<lparr>overlays := AList.update i ov (overlays m)\<rparr>)"
    using assms(1,3) by (auto simp: ovl_inv_def keys_ok_def distinct_update update_keys)
  have v: "visible_is_active (m\<lparr>overlays := AList.update i ov (overlays m)\<rparr>)"
    using assms(1,2) by (auto simp: ovl_inv_def visible_is_active_def dest!: in_set_updateD)
  from k v show ?thesis by (simp add: ovl_inv_def)
qed

lemma registerOverlay_inv:
  assumes "ovl_inv m"
  shows "ovl_inv (snd (registerOverlay now own otype options prio m))"
proof (cases "isBrowser m")
  case False
  with assms show ?thesis by (simp add: registerOverlay_def)
next
  case True
  let ?i = "make_overlay_id own otype now"
  let ?ov = "\<lparr>so_id = ?i, overlayType = otype, so_options = options, owner = own,
                priority = prio, element = None, blocker = None, timeoutId = None,
                isVisible = False, createdAt = now\<rparr>"
  let ?m1 = "m\<lparr>overlays := AList.update ?i ?ov (overlays m)\<rparr>"
  have i1: "ovl_inv ?m1" by (rule store_inv[OF assms]) simp_all
  show ?thesis
  proof (cases "noActiveOverlay ?m1")
    case na: True
    from i1 na have "none_visible ?m1"
      using noActive_none_visible[of ?m1] by (simp add: ovl_inv_def)
    then have "visible_only ?m1 ?i" using none_visible_imp by blast
    from show_inv[OF i1 this] True na show ?thesis
      by (simp add: registerOverlay_def Let_def)
  next
    case False
    let ?m2 = "addToQueue ?i ?m1"
    have i2: "ovl_inv ?m2" using i1 by simp
    have pre: "\<And>a. activeOverlayId ?m2 = Some a \<Longrightarrow>
        ovl_inv (snd (showOverlayById ?i (snd (hideOverlayById a False ?m2))))"
    proof -
      fix a assume a: "activeOverlayId ?m2 = Some a"
      let ?m3 = "snd (hideOverlayById a False ?m2)"
      have nv: "none_visible ?m3"
        using hide_active_none_visible[OF _ _ a] i2 by (simp add: ovl_inv_def)
      have i3: "ovl_inv ?m3" using hide_inv[OF i2] .
      from show_inv[OF i3] none_visible_imp[OF nv] show "ovl_inv (snd (showOverlayById ?i ?m3))"
        by blast
    qed
    from True False i2 pre show ?thesis
      by (auto simp: registerOverlay_def Let_def split: option.splits)
  qed
qed

lemma remove_keys:
  "map fst (overlays (snd (removeOverlayById i m))) = removeAll i (map fst (overlays m))"
proof (cases "getOverlay i m")
  case None
  then have "i \<notin> set (map fst (overlays m))"
    by (simp add: getOverlay_def map_of_eq_None_iff)
  with None show ?thesis by (simp add: removeOverlayById_def)
next
  case (Some ov)
  then show ?thesis by (simp add: removeOverlayById_def Let_def delete_keys)
qed

lemma remove_isBrowser [simp]: "isBrowser (snd (removeOverlayById i m)) = isBrowser m"
  by (simp add: removeOverlayById_def Let_def split: option.splits)

lemma removeOverlayById_inv:
  assumes "ovl_inv m"
  shows "ovl_inv (snd (removeOverlayById i m))"
proof (cases "getOverlay i m")
  case None
  with assms show ?thesis by (simp add: removeOverlayById_def)
next
  case (Some ov)
  let ?m1 = "m\<lparr>domObserver := None\<rparr>"
  let ?m2 = "snd (hideOverlayById i True ?m1)"
  have "ovl_inv ?m1" using assms by (simp add: ovl_inv_def keys_ok_def visible_is_active_def)
  then have i2: "ovl_inv ?m2" by (rule hide_inv)
  have "ovl_inv (?m2\<lparr>overlays := AList.delete i (overlays ?m2)\<rparr>)"
    using i2 by (auto simp: ovl_inv_def keys_ok_def visible_is_active_def distinct_removeAll
        delete_keys dest!: in_set_deleteD)
  with Some show ?thesis by (simp add: removeOverlayById_def Let_def)
qed

lemma removeOverlays_inv:
  "ovl_inv m \<Longrightarrow> ovl_inv (snd (removeOverlays ks m))"
proof (induction ks arbitrary: m)
  case Nil
  then show ?case by simp
next
  case (Cons k ks)
  have "ovl_inv (snd (removeOverlayById k m))" using Cons.prems by (rule removeOverlayById_inv)
  from Cons.IH[OF this] show ?case by (simp add: split_def Let_def)
qed

lemma removeOverlays_keys:
  "set (map fst (overlays (snd (removeOverlays ks m)))) = set (map fst (overlays m)) - set ks"
proof (induction ks arbitrary: m)
  case Nil
  then show ?case by simp
next
  case (Cons k ks)
  from Cons.IH[of "snd (removeOverlayById k m)"] remove_keys[of k m]
  show ?case by (auto simp: split_def Let_def)
qed

lemma restoreOverlays_inv:
  "ovl_inv m \<Longrightarrow> ovl_inv (snd (restoreOverlays own ks m))"
proof (induction ks arbitrary: m)
  case Nil
  then show ?case by simp
next
  case (Cons k ks)
  show ?case
  proof (cases "getOverlay k m")
    case None
    with Cons show ?thesis by simp
  next
    case (Some ov)
    show ?thesis
    proof (cases "owner ov = own \<and> autoRestore (so_options ov) \<noteq> Some False \<and> \<not> isVisible ov")
      case False
      with Some Cons show ?thesis by auto
    next
      case True
      show ?thesis
      proof (cases "noActiveOverlay m")
        case False
        have "ovl_inv (addToQueue k m)" using Cons.prems by simp
        from Cons.IH[OF this] Some True False show ?thesis by simp
      next
        case na: True
        from Cons.prems na have "none_visible m"
          using noActive_none_visible[of m] by (simp add: ovl_inv_def)
        then have "visible_only m k" using none_visible_imp by blast
        from show_inv[OF Cons.prems this] have "ovl_inv (snd (showOverlayById k m))" .
        from Cons.IH[OF this] Some True na show ?thesis by (simp add: split_def Let_def)
      qed
    qed
  qed
qed

lemma clearAllOverlays_inv:
  assumes "ovl_inv m"
  shows "ovl_inv (snd (clearAllOverlays m))"
proof (cases "isBrowser m")
  case False
  with assms show ?thesis by (simp add: clearAllOverlays_def)
next
  case True
  let ?m1 = "snd (removeOverlays (map fst (overlays m)) m)"
  from removeOverlays_keys[of "map fst (overlays m)" m] have "overlays ?m1 = []" by simp
  then have "ovl_inv (?m1\<lparr>overlayQueue := [], activeOverlayId := None\<rparr>)"
    by (simp add: ovl_inv_def keys_ok_def visible_is_active_def)
  with True show ?thesis by (simp add: clearAllOverlays_def split_def Let_def)
qed

lemma handleElementsRemoved_inv:
  assumes "ovl_inv m"
  shows "ovl_inv (handleElementsRemoved m)"
proof (cases "domObserver m")
  case None
  with assms show ?thesis by (simp add: handleElementsRemoved_def)
next
  case (Some i)
  show ?thesis
  proof (cases "getOverlay i m")
    case None
    with Some assms show ?thesis by (simp add: handleElementsRemoved_def)
  next
    case ov: (Some cur)
    let ?f = "\<lambda>ov. ov\<lparr>isVisible := False, element := None, blocker := None\<rparr>"
    let ?m1 = "modifyOverlay i ?f m"
    have v1: "visible_is_active ?m1"
      using assms by (intro mark_hidden_visible_is_active) (simp_all add: ovl_inv_def)
    have i1: "ovl_inv ?m1" using v1 assms by (simp add: ovl_inv_def keys_ok_def)
    have "activeOverlayId ?m1 = Some i \<Longrightarrow> visible_only ?m1 i"
      using v1 by (auto simp: visible_is_active_def visible_only_def)
    then have "activeOverlayId ?m1 = Some i \<Longrightarrow> ovl_inv (snd (showOverlayById i ?m1))"
      using show_inv[OF i1] by blast
    with Some ov i1 assms show ?thesis
      by (auto simp: handleElementsRemoved_def Let_def)
  qed
qed

lemma handleOverlayShown_inv:
  "ovl_inv m \<Longrightarrow> ovl_inv (handleOverlayShown now e m)"
  by (auto simp: handleOverlayShown_def Let_def removeOverlayById_inv registerOverlay_inv
      split: payload.splits option.splits prod.splits if_splits)

lemma handleOverlayRemoved_inv:
  "ovl_inv m \<Longrightarrow> ovl_inv (handleOverlayRemoved e m)"
  by (auto simp: handleOverlayRemoved_def removeOverlaysByOwner_def removeOverlays_inv
      split: payload.splits)

lemma handleOverlayRestored_inv:
  "ovl_inv m \<Longrightarrow> ovl_inv (handleOverlayRestored e m)"
  by (auto simp: handleOverlayRestored_def checkAndRestoreOverlaysByOwner_def restoreOverlays_inv
      split: option.splits)

lemma apply_overlay_op_inv:
  "ovl_inv m \<Longrightarrow> ovl_inv (apply_overlay_op op m)"
  by (cases op)
     (simp_all add: registerOverlay_inv handleOverlayShown_inv handleOverlayRemoved_inv
        handleOverlayRestored_inv removeOverlayById_inv removeOverlaysByOwner_def
        removeOverlays_inv checkAndRestoreOverlaysByOwner_def restoreOverlays_inv
        clearAllOverlays_inv handleElementsRemoved_inv)

lemma run_overlay_ops_inv:
  "ovl_inv m \<Longrightarrow> ovl_inv (run_overlay_ops ops m)"
  unfolding run_overlay_ops_def
  by (induction ops arbitrary: m) (simp_all add: apply_overlay_op_inv)

lemma new_manager_inv: "ovl_inv (new_manager b)"
  by (simp add: ovl_inv_def keys_ok_def visible_is_active_def new_manager_def)

lemma distinct_all_equal: "distinct xs \<Longrightarrow> \<forall>x\<in>set xs. x = a \<Longrightarrow> length xs \<le> Suc 0"
  by (cases xs; cases "tl xs") auto

lemma inv_single_active:
  assumes "ovl_inv m"
  shows "single_active m"
proof -
  have d: "distinct (getActiveOverlays m)"
    using assms by (simp add: getActiveOverlays_def ovl_inv_def keys_ok_def distinct_map_filter)
  have a: "\<forall>i \<in> set (getActiveOverlays m). activeOverlayId m = Some i"
    using assms by (auto simp: getActiveOverlays_def ovl_inv_def visible_is_active_def)
  show ?thesis
  proof (cases "activeOverlayId m")
    case None
    with a have "getActiveOverlays m = []" by (cases "getActiveOverlays m") auto
    with a show ?thesis by (simp add: single_active_def)
  next
    case (Some x)
    with a have "\<forall>i \<in> set (getActiveOverlays m). i = x" by auto
    from distinct_all_equal[OF d this] a show ?thesis by (simp add: single_active_def)
  qed
qed

lemma set_insert_by [simp]: "set (insert_by cmp x ys) = insert x (set ys)"
  by (induction ys) auto

lemma set_array_sort [simp]: "set (array_sort cmp xs) = set xs"
  unfolding array_sort_def by (induction xs) auto



lemma getOverlay_fields [simp]:
  "getOverlay k (m\<lparr>activeOverlayId := x\<rparr>) = getOverlay k m"
  "getOverlay k (m\<lparr>overlayQueue := q\<rparr>) = getOverlay k m"
  "getOverlay k (m\<lparr>domObserver := d\<rparr>) = getOverlay k m"
  by (simp_all add: getOverlay_def)





lemma tags_map_entry:
  assumes "\<And>ov. owner (f ov) = owner ov \<and> overlayType (f ov) = overlayType ov"
  shows "map entry_tag (AList.map_entry i f al) = map entry_tag al"
  using assms by (induction al) (auto simp: entry_tag_def)

lemma tags_modifyOverlay:
  assumes "\<And>ov. owner (f ov) = owner ov \<and> overlayType (f ov) = overlayType ov"
  shows "map entry_tag (overlays (modifyOverlay i f m)) = map entry_tag (overlays m)"
  using tags_map_entry[OF assms] by (simp add: modifyOverlay_def)

lemma show_tags [simp]:
  "map entry_tag (overlays (snd (showOverlayById i m))) = map entry_tag (overlays m)"
  by (simp add: showOverlayById_def Let_def tags_modifyOverlay split: option.splits prod.splits)

lemma hide_tags [simp]:
  "map entry_tag (overlays (snd (hideOverlayById i pq m))) = map entry_tag (overlays m)"
  by (simp add: hideOverlayById_def Let_def tags_modifyOverlay split: option.splits)









lemma addToQueue_tags [simp]:
  "map entry_tag (overlays (addToQueue i m)) = map entry_tag (overlays m)"
  by simp













text \<open>Evaluating the manager on concrete calls.\<close>

lemmas overlay_eval =
  run_overlay_ops_def new_manager_def registerOverlay_def make_overlay_id_def
  string_of_nat_digits noActiveOverlay_def showOverlayById_def hideOverlayById_def
  removeOverlayById_def getOverlay_def createOverlayElements_def modifyOverlay_def
  addToQueue_def queue_cmp_def array_sort_def no_overlay_options_def truthy_bool_def
  getActiveOverlays_def Let_def

subsection \<open>Single active overlay\<close>

text \<open>
  C1. Single active overlay. After every sequence of calls on a new manager
  (\<^verbatim>\<open>registerOverlay\<close>, the three overlay-event handlers, the removals, the
  restore check, \<^verbatim>\<open>clearAllOverlays\<close> and the observer's callback, in a browser
  or not) at most one stored overlay is visible, and a visible overlay is the one that
  \<^verbatim>\<open>activeOverlayId\<close> names.
\<close>

theorem single_active_overlay:
  "single_active (run_overlay_ops ops (new_manager browser))"
proof -
  have "ovl_inv (new_manager browser)" by (rule new_manager_inv)
  then have "ovl_inv (run_overlay_ops ops (new_manager browser))"
    by (rule run_overlay_ops_inv)
  then show ?thesis by (rule inv_single_active)
qed

text \<open>The theorem at three registrations, the last of the highest priority.\<close>

theorem single_active_overlay_witness:
  "getActiveOverlays (run_overlay_ops three_ops (new_manager True)) = [''overlay-x-ext-3''] \<and>
   length (getActiveOverlays (run_overlay_ops three_ops (new_manager True))) \<le> 1 \<and>
   activeOverlayId (run_overlay_ops three_ops (new_manager True)) = Some ''overlay-x-ext-3''"
proof -
  let ?m = "run_overlay_ops three_ops (new_manager True)"
  have g: "getActiveOverlays ?m = [''overlay-x-ext-3'']"
    by (simp add: three_ops_def overlay_eval)
  from single_active_overlay[of three_ops True]
  have l: "length (getActiveOverlays ?m) \<le> 1"
    and a: "\<forall>i \<in> set (getActiveOverlays ?m). activeOverlayId ?m = Some i"
    by (simp_all add: single_active_def)
  from a g have "activeOverlayId ?m = Some ''overlay-x-ext-3''" by simp
  with g l show ?thesis by simp
qed

subsection \<open>Preemption\<close>




subsection \<open>Duplicate registration\<close>




subsection \<open>Queue and map\<close>

text \<open>
  C10 at its failing input. Three overlays are registered, the first is active and the
  other two wait. \<^verbatim>\<open>removeOverlayById\<close> of the waiting second one deletes it from
  the map and leaves its id in the queue. When the active overlay is then removed, the
  id taken from the queue has no overlay, nothing is shown, and the third overlay stays
  in the queue with no overlay active.
\<close>

theorem removed_overlay_stays_queued:
  "overlayQueue (run_overlay_ops stale_ops (new_manager True))
     = [''overlay-s-shot-2'', ''overlay-f-frame-3''] \<and>
   getOverlay ''overlay-s-shot-2'' (run_overlay_ops stale_ops (new_manager True)) = None \<and>
   activeOverlayId (run_overlay_ops (stale_ops @ [RemoveOverlayById ''overlay-d-dev-1''])
      (new_manager True)) = None \<and>
   getActiveOverlays (run_overlay_ops (stale_ops @ [RemoveOverlayById ''overlay-d-dev-1''])
      (new_manager True)) = [] \<and>
   overlayQueue (run_overlay_ops (stale_ops @ [RemoveOverlayById ''overlay-d-dev-1''])
      (new_manager True)) = [''overlay-f-frame-3'']"
  by (simp add: stale_ops_def overlay_eval)


end
